theory Spec2Isabelle
  imports Complex_Main "HOL-Library.Word"
begin

section \<open>Arrays, exceptions and the maximum of an array\<close>

text \<open>
  A two-dimensional array is the list of its rows. Tiles and intensity maps hold real
  numbers, label images hold natural numbers (0 is the background, an object is a
  positive label). A call that raises in Python returns \<open>Inl\<close> of the exception.
\<close>

type_synonym 'a array2 = "'a list list"

datatype exn = IndexError | OverflowError | BackendError

definition nrows :: "'a array2 \<Rightarrow> nat" where
  "nrows a = length a"

definition ncols :: "'a array2 \<Rightarrow> nat" where
  "ncols a = (case a of [] \<Rightarrow> 0 | r # _ \<Rightarrow> length r)"

definition rectangular :: "'a array2 \<Rightarrow> bool" where
  "rectangular a = (\<forall>r \<in> set a. length r = ncols a)"

text \<open>The entries of an array, row after row, and their number (\<open>a.size\<close>).\<close>

definition pixels :: "'a array2 \<Rightarrow> 'a list" where
  "pixels a = concat a"


text \<open>
  \<open>a.max()\<close> on an array of the image library: the largest entry. It is the library's
  own reduction, not the one of numpy: on an array without entries it answers 0 and does
  not raise.
\<close>

definition amax :: "nat array2 \<Rightarrow> nat" where
  "amax a = fold max (pixels a) 0"

section \<open>The image-processing backend\<close>

text \<open>
  \<open>count_nuclei\<close> calls four operations of the GPU image library imported as \<open>cle\<close>.
  The library is not part of the notebooks, so the four operations are parameters of the
  model, each free to return an array or to raise:
  \<^item> \<open>voronoi_otsu_labeling image spot_sigma\<close> segments a tile into a label image;
  \<^item> \<open>mean_intensity_map image labels\<close> paints every object with its mean intensity;
  \<^item> \<open>exclude_labels_with_map_values_within_range map labels maximum_value_range\<close>
    removes the objects whose map value is in the range;
  \<^item> \<open>exclude_labels_on_edges labels\<close> removes the objects that touch the border.
\<close>

record cle =
  voronoi_otsu_labeling :: "real array2 \<Rightarrow> real \<Rightarrow> exn + nat array2"
  mean_intensity_map :: "real array2 \<Rightarrow> nat array2 \<Rightarrow> exn + real array2"
  exclude_labels_with_map_values_within_range ::
    "real array2 \<Rightarrow> nat array2 \<Rightarrow> real \<Rightarrow> exn + nat array2"
  exclude_labels_on_edges :: "nat array2 \<Rightarrow> exn + nat array2"

section \<open>The border-corrected counter\<close>

text \<open>
  \<^verbatim>\<open>
  def count_nuclei(image):
      print("Processing image of size", image.shape)
      labels = cle.voronoi_otsu_labeling(image, spot_sigma=3.5)
      label_intensity_map = cle.mean_intensity_map(image, labels)
      high_intensity_labels = cle.exclude_labels_with_map_values_within_range(
          label_intensity_map, labels, maximum_value_range=20)
      nuclei_count = high_intensity_labels.max()
      labels_without_borders = cle.exclude_labels_on_edges(high_intensity_labels)
      nuclei_count_excluding_borders = labels_without_borders.max()
      result = np.asarray([[(nuclei_count + nuclei_count_excluding_borders) / 2]])
      print(result.shape)
      return result
  \<close>
  The two \<open>print\<close> calls write to the standard output and do not enter the result; they
  are left out. The result is a 1 x 1 array holding the average of the two counts. A label
  is a natural number and the division is Python's true division: the sum of the two
  counts and its half are exact for every label a tile can hold. The parameter \<open>image\<close>
  is written \<open>img\<close>. The first three calls, which produce the label image
  \<open>high_intensity_labels\<close>, are a definition of their own, so that a theorem can name
  that label image.
\<close>

definition high_intensity_labels :: "cle \<Rightarrow> real array2 \<Rightarrow> exn + nat array2" where
  "high_intensity_labels lib img =
    (case voronoi_otsu_labeling lib img (7 / 2) of
       Inl e \<Rightarrow> Inl e
     | Inr labels \<Rightarrow>
    (case mean_intensity_map lib img labels of
       Inl e \<Rightarrow> Inl e
     | Inr label_intensity_map \<Rightarrow>
       exclude_labels_with_map_values_within_range lib label_intensity_map labels 20))"

definition count_nuclei :: "cle \<Rightarrow> real array2 \<Rightarrow> exn + real array2" where
  "count_nuclei lib img =
    (case high_intensity_labels lib img of
       Inl e \<Rightarrow> Inl e
     | Inr hl \<Rightarrow>
       (let nuclei_count = amax hl in
        (case exclude_labels_on_edges lib hl of
           Inl e \<Rightarrow> Inl e
         | Inr labels_without_borders \<Rightarrow>
           (let nuclei_count_excluding_borders = amax labels_without_borders in
            Inr [[(real nuclei_count + real nuclei_count_excluding_borders) / 2]]))))"

section \<open>Objects of a label image\<close>

definition labels_of :: "nat array2 \<Rightarrow> nat set" where
  "labels_of a = set (filter (\<lambda>l. 0 < l) (pixels a))"

text \<open>The positive labels are numbered 1, 2, ..., n without a gap.\<close>

definition sequential :: "nat array2 \<Rightarrow> bool" where
  "sequential a = (labels_of a = {1..card (labels_of a)})"

text \<open>
  An object touches the border when one of its pixels lies in the first row, the last
  row, the first column or the last column.
\<close>

definition touches_edge :: "nat array2 \<Rightarrow> nat \<Rightarrow> bool" where
  "touches_edge a l =
    (a \<noteq> [] \<and>
      (l \<in> set (hd a) \<or> l \<in> set (last a) \<or>
       (\<exists>row \<in> set a. row \<noteq> [] \<and> (hd row = l \<or> last row = l))))"

definition interior_labels :: "nat array2 \<Rightarrow> nat set" where
  "interior_labels a = {l \<in> labels_of a. \<not> touches_edge a l}"

text \<open>
  What the counter needs from the edge exclusion: the objects that remain are as many as
  the objects that do not touch the border.
\<close>

definition removes_edge_objects :: "nat array2 \<Rightarrow> nat array2 \<Rightarrow> bool" where
  "removes_edge_objects hl lwb = (card (labels_of lwb) = card (interior_labels hl))"

text \<open>
  A backend that answers with prescribed arrays, whatever it is given: a concrete
  backend on which theorems below are evaluated.
\<close>

definition fixed_cle :: "nat array2 \<Rightarrow> real array2 \<Rightarrow> nat array2 \<Rightarrow> nat array2 \<Rightarrow> cle" where
  "fixed_cle labels imap hl lwb =
    \<lparr> voronoi_otsu_labeling = (\<lambda>img spot_sigma. Inr labels),
      mean_intensity_map = (\<lambda>img labels'. Inr imap),
      exclude_labels_with_map_values_within_range = (\<lambda>m labels' r. Inr hl),
      exclude_labels_on_edges = (\<lambda>labels'. Inr lwb) \<rparr>"

text \<open>
  A backend that answers with the prescribed arrays only when it is called as
  \<open>count_nuclei\<close> calls it on the tile (the tile and \<open>spot_sigma = 3.5\<close>, the tile and
  the labels, the intensity map, the labels and \<open>maximum_value_range = 20\<close>, the
  high-confidence labels) and raises on any other call.
\<close>

definition scripted_cle ::
    "real array2 \<Rightarrow> nat array2 \<Rightarrow> real array2 \<Rightarrow> nat array2 \<Rightarrow> nat array2 \<Rightarrow> cle" where
  "scripted_cle tile labels imap hl lwb =
    \<lparr> voronoi_otsu_labeling =
        (\<lambda>img spot_sigma.
          if img = tile \<and> spot_sigma = 7 / 2 then Inr labels else Inl BackendError),
      mean_intensity_map =
        (\<lambda>img labels'.
          if img = tile \<and> labels' = labels then Inr imap else Inl BackendError),
      exclude_labels_with_map_values_within_range =
        (\<lambda>m labels' r.
          if m = imap \<and> labels' = labels \<and> r = 20 then Inr hl else Inl BackendError),
      exclude_labels_on_edges =
        (\<lambda>labels'. if labels' = hl then Inr lwb else Inl BackendError) \<rparr>"

section \<open>A routine for wasting compute time\<close>

text \<open>
  \<^verbatim>\<open>
  def slow_thing(image, x, y):
      sum = 0
      for i in range(1000):
          for j in range(100):
              sum = sum + x
          sum = sum + y
      image[x, y] = sum
  \<close>
  The loops are recursions on the number of iterations left. The assignment follows the
  indexing of the array library: an index \<open>i\<close> of an axis of length \<open>n\<close> is valid when
  \<open>- n \<le> i < n\<close>, a negative one counts from the end, any other raises. The assignment
  converts the Python integer \<open>sum\<close> to the element type of the array, and the conversion
  can change the value or raise. The element type is not visible in a list of rows, so the
  conversion of the array's element type is an argument of the model. The array is updated
  in place; the model returns the updated array.
\<close>

fun inner_loop :: "nat \<Rightarrow> int \<Rightarrow> int \<Rightarrow> int" where
  "inner_loop 0 x s = s"
| "inner_loop (Suc j) x s = inner_loop j x (s + x)"

fun outer_loop :: "nat \<Rightarrow> int \<Rightarrow> int \<Rightarrow> int \<Rightarrow> int" where
  "outer_loop 0 x y s = s"
| "outer_loop (Suc i) x y s = outer_loop i x y (inner_loop 100 x s + y)"

definition valid_index :: "nat \<Rightarrow> int \<Rightarrow> bool" where
  "valid_index n i = (- int n \<le> i \<and> i < int n)"

definition norm_index :: "nat \<Rightarrow> int \<Rightarrow> exn + nat" where
  "norm_index n i =
    (if 0 \<le> i \<and> i < int n then Inr (nat i)
     else if - int n \<le> i \<and> i < 0 then Inr (nat (i + int n))
     else Inl IndexError)"

definition position :: "nat \<Rightarrow> int \<Rightarrow> nat" where
  "position n i = (if 0 \<le> i then nat i else nat (i + int n))"

text \<open>The conversion of a Python integer to the element type of an array.\<close>

type_synonym 'a dtype = "int \<Rightarrow> exn + 'a"

text \<open>
  64-bit floats, the element type of \<open>np.zeros((10, 10))\<close>: an integer is rounded to 53
  significant bits, ties to even, and one beyond the largest float raises.
\<close>

function excess_bits :: "nat \<Rightarrow> nat" where
  "excess_bits m = (if m < 2 ^ 53 then 0 else Suc (excess_bits (m div 2)))"
  by pat_completeness auto
termination
  by (relation "measure id") auto

definition round_half_even :: "nat \<Rightarrow> nat" where
  "round_half_even m =
    (let s = excess_bits m; q = m div 2 ^ s; r = m mod 2 ^ s in
     if 2 ^ s < 2 * r \<or> (2 * r = 2 ^ s \<and> odd q) then (q + 1) * 2 ^ s else q * 2 ^ s)"

definition float64 :: "real dtype" where
  "float64 n =
    (let v = round_half_even (nat \<bar>n\<bar>) in
     if 2 ^ 1024 \<le> v then Inl OverflowError else Inr (of_int (sgn n * int v)))"

text \<open>
  Unsigned 8-bit integers. An integer out of range is reduced modulo 256 by the older
  releases of the array library and raises in the newer ones.
\<close>

definition uint8_wrapping :: "8 word dtype" where
  "uint8_wrapping n = Inr (word_of_int n)"

definition uint8_checked :: "8 word dtype" where
  "uint8_checked n = (if 0 \<le> n \<and> n \<le> 255 then Inr (word_of_int n) else Inl OverflowError)"

definition setitem :: "'a dtype \<Rightarrow> 'a array2 \<Rightarrow> int \<Rightarrow> int \<Rightarrow> int \<Rightarrow> exn + 'a array2" where
  "setitem conv img x y n =
    (case norm_index (nrows img) x of
       Inl e \<Rightarrow> Inl e
     | Inr r \<Rightarrow>
    (case norm_index (ncols img) y of
       Inl e \<Rightarrow> Inl e
     | Inr c \<Rightarrow>
    (case conv n of
       Inl e \<Rightarrow> Inl e
     | Inr v \<Rightarrow> Inr (img[r := (img ! r)[c := v]]))))"

definition getitem :: "'a array2 \<Rightarrow> int \<Rightarrow> int \<Rightarrow> exn + 'a" where
  "getitem img x y =
    (case norm_index (nrows img) x of
       Inl e \<Rightarrow> Inl e
     | Inr r \<Rightarrow>
    (case norm_index (ncols img) y of
       Inl e \<Rightarrow> Inl e
     | Inr c \<Rightarrow> Inr (img ! r ! c)))"

definition slow_thing :: "'a dtype \<Rightarrow> 'a array2 \<Rightarrow> int \<Rightarrow> int \<Rightarrow> exn + 'a array2" where
  "slow_thing conv img x y = setitem conv img x y (outer_loop 1000 x y 0)"

section \<open>The accumulation loops\<close>

lemma inner_loop_closed: "inner_loop j x s = s + int j * x"
  by (induction j arbitrary: s) (simp_all add: algebra_simps)

lemma outer_loop_closed: "outer_loop i x y s = s + int i * (100 * x + y)"
  by (induction i arbitrary: s) (simp_all add: inner_loop_closed algebra_simps)

lemma slow_sum: "outer_loop 1000 x y 0 = 100000 * x + 1000 * y"
  by (simp add: outer_loop_closed)

section \<open>Indexing and conversion\<close>

lemma norm_index_valid: "valid_index n i \<Longrightarrow> norm_index n i = Inr (position n i)"
  by (auto simp: valid_index_def norm_index_def position_def)

lemma norm_index_invalid: "\<not> valid_index n i \<Longrightarrow> norm_index n i = Inl IndexError"
  by (auto simp: valid_index_def norm_index_def)

lemma position_less: "valid_index n i \<Longrightarrow> position n i < n"
  by (auto simp: valid_index_def position_def)

lemma rectangular_row: "rectangular a \<Longrightarrow> r < length a \<Longrightarrow> length (a ! r) = ncols a"
  by (simp add: rectangular_def)

lemma ncols_update:
  assumes "rectangular a" and "r < length a"
  shows "ncols (a[r := (a ! r)[c := v]]) = ncols a"
proof (cases a)
  case Nil
  with assms show ?thesis by simp
next
  case (Cons row rows)
  then show ?thesis by (cases r) (simp_all add: ncols_def)
qed

lemma rectangular_update:
  assumes "rectangular a" and "r < length a"
  shows "rectangular (a[r := (a ! r)[c := v]])"
proof -
  have "length row = ncols a" if "row \<in> set (a[r := (a ! r)[c := v]])" for row
  proof -
    from that have "row = (a ! r)[c := v] \<or> row \<in> set a"
      using set_update_subset_insert by fastforce
    with assms show ?thesis by (auto simp: rectangular_def)
  qed
  with assms show ?thesis by (simp add: rectangular_def ncols_update)
qed

text \<open>Below \<open>2 ^ 53\<close> in magnitude an integer is a 64-bit float as it is.\<close>

lemma round_half_even_small: "m < 2 ^ 53 \<Longrightarrow> round_half_even m = m"
  by (simp add: round_half_even_def)

lemma float64_exact:
  assumes "\<bar>n\<bar> < 2 ^ 53"
  shows "float64 n = Inr (of_int n)"
proof -
  from assms have small: "nat \<bar>n\<bar> < 2 ^ 53" by simp
  then have r: "round_half_even (nat \<bar>n\<bar>) = nat \<bar>n\<bar>" by (rule round_half_even_small)
  have "(2::nat) ^ 53 \<le> 2 ^ 1024" by (rule power_increasing) simp_all
  with small have "\<not> 2 ^ 1024 \<le> nat \<bar>n\<bar>" by linarith
  moreover have "sgn n * int (nat \<bar>n\<bar>) = n" by (simp add: mult_sgn_abs)
  ultimately show ?thesis by (simp add: float64_def r)
qed

section \<open>The maximum and the labels of an array\<close>

lemma amax_Max: "amax a = Max (insert 0 (set (pixels a)))"
proof -
  have "Max (set (0 # pixels a)) = fold max (pixels a) 0" by (rule Max.set_eq_fold)
  then show ?thesis by (simp add: amax_def)
qed

lemma finite_labels_of: "finite (labels_of a)"
  by (simp add: labels_of_def)

text \<open>In a label image numbered without gaps the largest label is the number of objects.\<close>

lemma sequential_amax:
  assumes "sequential a"
  shows "amax a = card (labels_of a)"
proof -
  define S where "S = insert 0 (set (pixels a))"
  define n where "n = card (labels_of a)"
  have fin: "finite S" by (simp add: S_def)
  have lab: "labels_of a = {1..n}"
    using assms by (simp add: sequential_def n_def)
  have mem: "l \<in> labels_of a \<longleftrightarrow> l \<in> S \<and> 0 < l" for l
    by (auto simp add: labels_of_def S_def)
  have le: "v \<le> n" if "v \<in> S" for v
  proof (cases "v = 0")
    case True
    then show ?thesis by simp
  next
    case False
    with that have "v \<in> labels_of a" using mem by blast
    then have "v \<in> {1..n}" by (simp only: lab)
    then show ?thesis by simp
  qed
  have "n \<in> S"
  proof (cases "n = 0")
    case True
    then show ?thesis by (simp add: S_def)
  next
    case False
    then have "n \<in> {1..n}" by simp
    then show ?thesis using mem lab by blast
  qed
  with fin le have "Max S = n" by (intro Max_eqI)
  then show ?thesis by (simp only: amax_Max S_def n_def)
qed

lemma no_labels_amax: "labels_of a = {} \<Longrightarrow> amax a = 0"
  by (simp add: sequential_amax sequential_def)


section \<open>When the counter returns\<close>

lemma high_intensity_labels_calls:
  assumes "voronoi_otsu_labeling lib img (7 / 2) = Inr labels"
    and "mean_intensity_map lib img labels = Inr label_intensity_map"
    and "exclude_labels_with_map_values_within_range lib label_intensity_map labels 20
         = Inr hl"
  shows "high_intensity_labels lib img = Inr hl"
  using assms by (simp add: high_intensity_labels_def)

lemma count_nuclei_returns:
  assumes "high_intensity_labels lib img = Inr hl"
    and "exclude_labels_on_edges lib hl = Inr lwb"
  shows "count_nuclei lib img = Inr [[(real (amax hl) + real (amax lwb)) / 2]]"
  using assms by (simp add: count_nuclei_def)

lemma count_nuclei_Inr_elim:
  assumes "count_nuclei lib img = Inr r"
  obtains hl lwb where "high_intensity_labels lib img = Inr hl"
    and "exclude_labels_on_edges lib hl = Inr lwb"
    and "r = [[(real (amax hl) + real (amax lwb)) / 2]]"
  using assms
  by (auto simp: count_nuclei_def split: sum.splits)


lemma count_nuclei_interior_objects:
  assumes "high_intensity_labels lib img = Inr hl"
    and "exclude_labels_on_edges lib hl = Inr lwb"
    and "sequential hl" and "sequential lwb"
    and "interior_labels hl = labels_of hl"
    and "removes_edge_objects hl lwb"
  shows "count_nuclei lib img = Inr [[real (card (labels_of hl))]]"
proof -
  from assms(5,6) have "card (labels_of lwb) = card (labels_of hl)"
    by (simp add: removes_edge_objects_def)
  with assms(3,4) have "amax hl = card (labels_of hl)" and "amax lwb = card (labels_of hl)"
    by (simp_all add: sequential_amax)
  with count_nuclei_returns [OF assms(1,2)] show ?thesis by simp
qed

section \<open>The corrected count\<close>

text \<open>
  C1. Whenever the segmentation of a tile succeeds, the counter returns exactly
  \<open>(A + B) / 2\<close>, where \<open>A\<close> is the number of objects of the high-confidence label
  image, those on the border included, and \<open>B\<close> is the number of its objects that do not
  touch any of the four edges. The segmentation succeeding is the library doing its part:
  each of the four calls, made as the code makes it, returns, the two label images number
  their objects without a gap, and the edge exclusion leaves as many objects as do not
  touch the border.
\<close>

theorem count_nuclei_average:
  assumes "voronoi_otsu_labeling lib img (7 / 2) = Inr labels"
    and "mean_intensity_map lib img labels = Inr label_intensity_map"
    and "exclude_labels_with_map_values_within_range lib label_intensity_map labels 20
         = Inr hl"
    and "exclude_labels_on_edges lib hl = Inr lwb"
    and "sequential hl" and "sequential lwb"
    and "removes_edge_objects hl lwb"
  shows "count_nuclei lib img =
    Inr [[(real (card (labels_of hl)) + real (card (interior_labels hl))) / 2]]"
proof -
  have hl: "high_intensity_labels lib img = Inr hl"
    using assms(1-3) by (rule high_intensity_labels_calls)
  from assms(5) have A: "amax hl = card (labels_of hl)" by (rule sequential_amax)
  from assms(6) have "amax lwb = card (labels_of lwb)" by (rule sequential_amax)
  with assms(7) have B: "amax lwb = card (interior_labels hl)"
    by (simp add: removes_edge_objects_def)
  from count_nuclei_returns [OF hl assms(4)] A B show ?thesis by simp
qed

text \<open>
  A tile with two bright objects, the left one on the border: two objects, one of them
  away from the border, and the corrected count is 3 / 2.
\<close>

theorem count_nuclei_average_witness:
  "card (labels_of [[0, 0, 0, 0], [1, 0, 2, 0], [0, 0, 0, 0]]) = 2
   \<and> card (interior_labels [[0, 0, 0, 0], [1, 0, 2, 0], [0, 0, 0, 0]]) = 1
   \<and> count_nuclei
      (scripted_cle [[0, 0, 0, 0], [90, 0, 70, 0], [0, 0, 0, 0]]
                    [[0, 0, 0, 0], [1, 0, 2, 0], [0, 0, 0, 0]]
                    [[0, 0, 0, 0], [90, 0, 70, 0], [0, 0, 0, 0]]
                    [[0, 0, 0, 0], [1, 0, 2, 0], [0, 0, 0, 0]]
                    [[0, 0, 0, 0], [0, 0, 1, 0], [0, 0, 0, 0]])
      [[0, 0, 0, 0], [90, 0, 70, 0], [0, 0, 0, 0]]
     = Inr [[3 / 2]]"
proof -
  let ?hl = "[[0, 0, 0, 0], [1, 0, 2, 0], [0, 0, 0, 0 :: nat]]"
  let ?lwb = "[[0, 0, 0, 0], [0, 0, 1, 0], [0, 0, 0, 0 :: nat]]"
  let ?img = "[[0, 0, 0, 0], [90, 0, 70, 0], [0, 0, 0, 0 :: real]]"
  let ?lib = "scripted_cle ?img ?hl ?img ?hl ?lwb"
  have lab: "labels_of ?hl = {1, 2}" by (auto simp add: labels_of_def pixels_def)
  have lab': "labels_of ?lwb = {1}" by (auto simp add: labels_of_def pixels_def)
  have inner: "interior_labels ?hl = {2}"
    unfolding interior_labels_def lab by (auto simp add: touches_edge_def)
  have c1: "card (labels_of ?hl) = 2" unfolding lab by simp
  have c2: "card (interior_labels ?hl) = 1" unfolding inner by simp
  have h1: "voronoi_otsu_labeling ?lib ?img (7 / 2) = Inr ?hl"
    by (simp add: scripted_cle_def)
  have h2: "mean_intensity_map ?lib ?img ?hl = Inr ?img"
    by (simp add: scripted_cle_def)
  have h3: "exclude_labels_with_map_values_within_range ?lib ?img ?hl 20 = Inr ?hl"
    by (simp add: scripted_cle_def)
  have h4: "exclude_labels_on_edges ?lib ?hl = Inr ?lwb"
    by (simp add: scripted_cle_def)
  have h5: "sequential ?hl" unfolding sequential_def lab by auto
  have h6: "sequential ?lwb" unfolding sequential_def lab' by auto
  have h7: "removes_edge_objects ?hl ?lwb"
    unfolding removes_edge_objects_def lab' inner by simp
  from count_nuclei_average [OF h1 h2 h3 h4 h5 h6 h7]
  have "count_nuclei ?lib ?img = Inr [[3 / 2]]"
    unfolding c1 c2 by simp
  with c1 c2 show ?thesis by blast
qed

text \<open>
  C2. For a segmented tile, the quantities A and B that enter the estimate are the
  numbers of distinct positive labels of the high-confidence label image and of the
  edge-excluded label image. The code reads each as the largest label of its image; the
  two label images come from the library's exclusion steps, which number the objects
  that remain 1, 2, ..., n without a gap.
\<close>

theorem counts_are_numbers_of_labels:
  assumes "voronoi_otsu_labeling lib img (7 / 2) = Inr labels"
    and "mean_intensity_map lib img labels = Inr label_intensity_map"
    and "exclude_labels_with_map_values_within_range lib label_intensity_map labels 20
         = Inr hl"
    and "exclude_labels_on_edges lib hl = Inr lwb"
    and "sequential hl" and "sequential lwb"
  shows "amax hl = card (labels_of hl)
       \<and> amax lwb = card (labels_of lwb)
       \<and> count_nuclei lib img = Inr [[(real (amax hl) + real (amax lwb)) / 2]]"
proof -
  have hl: "high_intensity_labels lib img = Inr hl"
    using assms(1-3) by (rule high_intensity_labels_calls)
  from assms(5) have "amax hl = card (labels_of hl)" by (rule sequential_amax)
  moreover from assms(6) have "amax lwb = card (labels_of lwb)" by (rule sequential_amax)
  moreover note count_nuclei_returns [OF hl assms(4)]
  ultimately show ?thesis by simp
qed

text \<open>
  Three objects, two of them kept by the edge exclusion and numbered anew: A is 3, B is 2.
\<close>

theorem counts_are_numbers_of_labels_witness:
  "amax [[1, 0, 0, 0, 0], [0, 0, 2, 0, 0], [0, 0, 0, 0, 0], [0, 3, 0, 0, 0], [0, 0, 0, 0, 0]]
     = 3
   \<and> card (labels_of
        [[1, 0, 0, 0, 0], [0, 0, 2, 0, 0], [0, 0, 0, 0, 0], [0, 3, 0, 0, 0], [0, 0, 0, 0, 0]])
     = 3
   \<and> amax [[0, 0, 0, 0, 0], [0, 0, 1, 0, 0], [0, 0, 0, 0, 0], [0, 2, 0, 0, 0], [0, 0, 0, 0, 0]]
     = 2
   \<and> card (labels_of
        [[0, 0, 0, 0, 0], [0, 0, 1, 0, 0], [0, 0, 0, 0, 0], [0, 2, 0, 0, 0], [0, 0, 0, 0, 0]])
     = 2
   \<and> count_nuclei
      (scripted_cle
        [[50, 0, 0, 0, 0], [0, 0, 60, 0, 0], [0, 0, 0, 0, 0], [0, 70, 0, 0, 0], [0, 0, 0, 0, 0]]
        [[1, 0, 0, 0, 0], [0, 0, 2, 0, 0], [0, 0, 0, 0, 0], [0, 3, 0, 0, 0], [0, 0, 0, 0, 0]]
        [[50, 0, 0, 0, 0], [0, 0, 60, 0, 0], [0, 0, 0, 0, 0], [0, 70, 0, 0, 0], [0, 0, 0, 0, 0]]
        [[1, 0, 0, 0, 0], [0, 0, 2, 0, 0], [0, 0, 0, 0, 0], [0, 3, 0, 0, 0], [0, 0, 0, 0, 0]]
        [[0, 0, 0, 0, 0], [0, 0, 1, 0, 0], [0, 0, 0, 0, 0], [0, 2, 0, 0, 0], [0, 0, 0, 0, 0]])
      [[50, 0, 0, 0, 0], [0, 0, 60, 0, 0], [0, 0, 0, 0, 0], [0, 70, 0, 0, 0], [0, 0, 0, 0, 0]]
     = Inr [[5 / 2]]"
proof -
  let ?hl = "[[1, 0, 0, 0, 0], [0, 0, 2, 0, 0], [0, 0, 0, 0, 0], [0, 3, 0, 0, 0],
              [0, 0, 0, 0, 0 :: nat]]"
  let ?lwb = "[[0, 0, 0, 0, 0], [0, 0, 1, 0, 0], [0, 0, 0, 0, 0], [0, 2, 0, 0, 0],
               [0, 0, 0, 0, 0 :: nat]]"
  let ?img = "[[50, 0, 0, 0, 0], [0, 0, 60, 0, 0], [0, 0, 0, 0, 0], [0, 70, 0, 0, 0],
               [0, 0, 0, 0, 0 :: real]]"
  let ?lib = "scripted_cle ?img ?hl ?img ?hl ?lwb"
  have lab: "labels_of ?hl = {1, 2, 3}" by (auto simp add: labels_of_def pixels_def)
  have lab': "labels_of ?lwb = {1, 2}" by (auto simp add: labels_of_def pixels_def)
  have c1: "card (labels_of ?hl) = 3" unfolding lab by simp
  have c2: "card (labels_of ?lwb) = 2" unfolding lab' by simp
  have h1: "voronoi_otsu_labeling ?lib ?img (7 / 2) = Inr ?hl"
    by (simp add: scripted_cle_def)
  have h2: "mean_intensity_map ?lib ?img ?hl = Inr ?img"
    by (simp add: scripted_cle_def)
  have h3: "exclude_labels_with_map_values_within_range ?lib ?img ?hl 20 = Inr ?hl"
    by (simp add: scripted_cle_def)
  have h4: "exclude_labels_on_edges ?lib ?hl = Inr ?lwb"
    by (simp add: scripted_cle_def)
  have h5: "sequential ?hl" unfolding sequential_def lab by auto
  have h6: "sequential ?lwb" unfolding sequential_def lab' by auto
  from counts_are_numbers_of_labels [OF h1 h2 h3 h4 h5 h6]
  have a: "amax ?hl = card (labels_of ?hl)" and b: "amax ?lwb = card (labels_of ?lwb)"
    and r: "count_nuclei ?lib ?img = Inr [[(real (amax ?hl) + real (amax ?lwb)) / 2]]"
    by blast+
  from a c1 have a3: "amax ?hl = 3" by simp
  from b c2 have b2: "amax ?lwb = 2" by simp
  from r have "count_nuclei ?lib ?img = Inr [[5 / 2]]" unfolding a3 b2 by simp
  with a3 b2 c1 c2 show ?thesis by blast
qed



text \<open>
  C5. The high-confidence label image holds exactly one object, numbered 1 as in a label
  image numbered without a gap, and the object touches the border; the edge exclusion
  removes the objects on the border. Then count A is 1, count B is 0 and the counter
  returns 0.5.
\<close>

theorem single_border_object:
  assumes hl: "high_intensity_labels lib img = Inr hl"
    and lwb: "exclude_labels_on_edges lib hl = Inr lwb"
    and one: "card (labels_of hl) = 1"
    and seq: "sequential hl"
    and edge: "\<forall>l \<in> labels_of hl. touches_edge hl l"
    and rem: "removes_edge_objects hl lwb"
  shows "amax hl = 1 \<and> amax lwb = 0 \<and> count_nuclei lib img = Inr [[1 / 2]]"
proof -
  from seq one have A: "amax hl = 1" by (simp add: sequential_amax)
  from edge have "interior_labels hl = {}" by (auto simp: interior_labels_def)
  with rem have "card (labels_of lwb) = 0" by (simp add: removes_edge_objects_def)
  then have "labels_of lwb = {}" by (simp add: finite_labels_of)
  then have B: "amax lwb = 0" by (rule no_labels_amax)
  from count_nuclei_returns [OF hl lwb] A B
  have "count_nuclei lib img = Inr [[1 / 2]]" by simp
  with A B show ?thesis by simp
qed

theorem single_border_object_witness:
  "count_nuclei
     (fixed_cle [[1, 1, 0, 0], [1, 0, 0, 0], [0, 0, 0, 0]]
                [[80, 80, 0, 0], [80, 0, 0, 0], [0, 0, 0, 0]]
                [[1, 1, 0, 0], [1, 0, 0, 0], [0, 0, 0, 0]]
                [[0, 0, 0, 0], [0, 0, 0, 0], [0, 0, 0, 0]])
     [[80, 80, 0, 0], [80, 0, 0, 0], [0, 0, 0, 0]] = Inr [[1 / 2]]"
proof -
  let ?hl = "[[1, 1, 0, 0], [1, 0, 0, 0], [0, 0, 0, 0 :: nat]]"
  let ?lwb = "[[0, 0, 0, 0], [0, 0, 0, 0], [0, 0, 0, 0 :: nat]]"
  let ?img = "[[80, 80, 0, 0], [80, 0, 0, 0], [0, 0, 0, 0 :: real]]"
  let ?lib = "fixed_cle ?hl ?img ?hl ?lwb"
  have lab: "labels_of ?hl = {1}" by (auto simp add: labels_of_def pixels_def)
  have lab': "labels_of ?lwb = {}" by (simp add: labels_of_def pixels_def)
  have h1: "high_intensity_labels ?lib ?img = Inr ?hl"
    by (simp add: high_intensity_labels_def fixed_cle_def)
  have h2: "exclude_labels_on_edges ?lib ?hl = Inr ?lwb" by (simp add: fixed_cle_def)
  have h3: "card (labels_of ?hl) = 1" by (simp only: lab) simp
  have h4: "sequential ?hl" unfolding sequential_def lab by simp
  have h5: "\<forall>l \<in> labels_of ?hl. touches_edge ?hl l"
    unfolding lab by (simp add: touches_edge_def)
  have h6: "removes_edge_objects ?hl ?lwb"
    unfolding removes_edge_objects_def interior_labels_def lab lab'
    by (simp add: touches_edge_def)
  from single_border_object [OF h1 h2 h3 h4 h5 h6] show ?thesis by simp
qed

text \<open>
  C8. What the counter returns is one number, held in a 1 x 1 array, and the number is
  not negative.
\<close>

theorem count_nuclei_nonnegative:
  assumes "count_nuclei lib img = Inr r"
  shows "\<exists>v. r = [[v]] \<and> 0 \<le> v"
proof -
  from assms obtain hl lwb where
    r: "r = [[(real (amax hl) + real (amax lwb)) / 2]]"
    by (rule count_nuclei_Inr_elim)
  have "0 \<le> (real (amax hl) + real (amax lwb)) / 2"
    by simp
  with r show ?thesis by blast
qed

theorem count_nuclei_nonnegative_witness:
  "count_nuclei
     (fixed_cle [[0, 0, 0], [0, 1, 0], [0, 0, 0]] [[0, 0, 0], [0, 60, 0], [0, 0, 0]]
                [[0, 0, 0], [0, 1, 0], [0, 0, 0]] [[0, 0, 0], [0, 1, 0], [0, 0, 0]])
     [[0, 0, 0], [0, 60, 0], [0, 0, 0]] = Inr [[1]]
   \<and> (\<exists>v. [[1 :: real]] = [[v]] \<and> 0 \<le> v)"
proof -
  let ?l = "[[0, 0, 0], [0, 1, 0], [0, 0, 0 :: nat]]"
  let ?img = "[[0, 0, 0], [0, 60, 0], [0, 0, 0 :: real]]"
  have h: "count_nuclei (fixed_cle ?l ?img ?l ?l) ?img = Inr [[1]]"
    by (simp add: count_nuclei_def high_intensity_labels_def fixed_cle_def amax_def
        pixels_def)
  from count_nuclei_nonnegative [OF h] h show ?thesis by blast
qed

text \<open>
  C9. What the counter returns is a whole number of halves: both counts are natural
  numbers and the result is their sum divided by 2.
\<close>

theorem count_nuclei_half_integer:
  assumes "count_nuclei lib img = Inr r"
  shows "\<exists>k::nat. r = [[real k / 2]]"
proof -
  from assms obtain hl lwb where
    "r = [[(real (amax hl) + real (amax lwb)) / 2]]"
    by (rule count_nuclei_Inr_elim)
  then have "r = [[real (amax hl + amax lwb) / 2]]"
    by simp
  then show ?thesis ..
qed

theorem count_nuclei_half_integer_witness:
  "count_nuclei
     (fixed_cle [[1, 0, 0], [0, 2, 0], [0, 0, 0]] [[50, 0, 0], [0, 60, 0], [0, 0, 0]]
                [[1, 0, 0], [0, 2, 0], [0, 0, 0]] [[0, 0, 0], [0, 1, 0], [0, 0, 0]])
     [[50, 0, 0], [0, 60, 0], [0, 0, 0]] = Inr [[3 / 2]]
   \<and> (\<exists>k::nat. [[3 / 2 :: real]] = [[real k / 2]])"
proof -
  let ?hl = "[[1, 0, 0], [0, 2, 0], [0, 0, 0 :: nat]]"
  let ?lwb = "[[0, 0, 0], [0, 1, 0], [0, 0, 0 :: nat]]"
  let ?img = "[[50, 0, 0], [0, 60, 0], [0, 0, 0 :: real]]"
  have h: "count_nuclei (fixed_cle ?hl ?img ?hl ?lwb) ?img = Inr [[3 / 2]]"
    by (simp add: count_nuclei_def high_intensity_labels_def fixed_cle_def amax_def
        pixels_def)
  from count_nuclei_half_integer [OF h] h show ?thesis by blast
qed

section \<open>The pixel written by the slow routine\<close>

lemma slow_thing_out_of_bounds:
  "\<not> valid_index (nrows img) x \<or> \<not> valid_index (ncols img) y
    \<Longrightarrow> slow_thing conv img x y = Inl IndexError"
  by (cases "valid_index (nrows img) x")
    (auto simp add: slow_thing_def setitem_def norm_index_valid norm_index_invalid)

lemma slow_thing_conversion_raises:
  "valid_index (nrows img) x \<Longrightarrow> valid_index (ncols img) y
    \<Longrightarrow> conv (100000 * x + 1000 * y) = Inl e
    \<Longrightarrow> slow_thing conv img x y = Inl e"
  by (simp add: slow_thing_def setitem_def norm_index_valid slow_sum)

text \<open>
  C10, as the code has it. For a two-dimensional array and indices within its bounds,
  \<open>slow_thing\<close> stores at \<open>image[x, y]\<close> the number \<open>100000 * x + 1000 * y\<close> converted
  to the element type of the array, and changes no other entry, nor the shape; when the
  conversion raises, the call raises. On an array of 64-bit floats, as the one of the
  notebook, the stored value is that number itself as long as its magnitude is below
  \<open>2 ^ 53\<close>.
\<close>

theorem slow_thing_sets_pixel:
  assumes "rectangular img"
    and "valid_index (nrows img) x" and "valid_index (ncols img) y"
  shows "(case conv (100000 * x + 1000 * y) of
            Inl e \<Rightarrow> slow_thing conv img x y = Inl e
          | Inr v \<Rightarrow>
             (\<exists>img'. slow_thing conv img x y = Inr img'
                \<and> getitem img' x y = Inr v
                \<and> (\<forall>r c. r < nrows img \<longrightarrow> c < ncols img
                      \<longrightarrow> (r, c) \<noteq> (position (nrows img) x, position (ncols img) y)
                      \<longrightarrow> img' ! r ! c = img ! r ! c)
                \<and> nrows img' = nrows img \<and> ncols img' = ncols img \<and> rectangular img'))
    \<and> (\<bar>100000 * x + 1000 * y\<bar> < 2 ^ 53
         \<longrightarrow> float64 (100000 * x + 1000 * y) = Inr (of_int (100000 * x + 1000 * y)))"
proof -
  have exact: "\<bar>100000 * x + 1000 * y\<bar> < 2 ^ 53
      \<longrightarrow> float64 (100000 * x + 1000 * y) = Inr (of_int (100000 * x + 1000 * y))"
    using float64_exact by blast
  show ?thesis
  proof (cases "conv (100000 * x + 1000 * y)")
    case (Inl e)
    with assms(2,3) have "slow_thing conv img x y = Inl e"
      by (rule slow_thing_conversion_raises)
    with Inl exact show ?thesis by simp
  next
    case (Inr v)
    define r0 where "r0 = position (nrows img) x"
    define c0 where "c0 = position (ncols img) y"
    define img' where "img' = img[r0 := (img ! r0)[c0 := v]]"
    have r0: "r0 < length img"
      using assms(2) position_less [of "nrows img" x] by (simp add: r0_def nrows_def)
    have c0: "c0 < ncols img"
      using assms(3) position_less [of "ncols img" y] by (simp add: c0_def)
    have row: "length (img ! r0) = ncols img"
      using assms(1) r0 by (rule rectangular_row)
    have run: "slow_thing conv img x y = Inr img'"
      using assms(2,3) Inr
      by (simp add: slow_thing_def setitem_def norm_index_valid slow_sum
          img'_def r0_def c0_def)
    have rows': "nrows img' = nrows img"
      by (simp add: img'_def nrows_def)
    have cols': "ncols img' = ncols img"
      unfolding img'_def using assms(1) r0 by (rule ncols_update)
    have rect': "rectangular img'"
      unfolding img'_def using assms(1) r0 by (rule rectangular_update)
    have at: "img' ! r0 ! c0 = v"
      using r0 c0 row by (simp add: img'_def)
    have read: "getitem img' x y = Inr v"
      using assms(2,3) at
      by (simp add: getitem_def rows' cols' norm_index_valid r0_def c0_def)
    have other: "img' ! r ! c = img ! r ! c"
      if "r < nrows img" and "c < ncols img" and "(r, c) \<noteq> (r0, c0)" for r c
    proof (cases "r = r0")
      case True
      with that(3) have "c \<noteq> c0" by simp
      with True r0 show ?thesis by (simp add: img'_def)
    next
      case False
      then show ?thesis by (simp add: img'_def)
    qed
    from run read other rows' cols' rect'
    have "\<exists>img'. slow_thing conv img x y = Inr img'
        \<and> getitem img' x y = Inr v
        \<and> (\<forall>r c. r < nrows img \<longrightarrow> c < ncols img
              \<longrightarrow> (r, c) \<noteq> (position (nrows img) x, position (ncols img) y)
              \<longrightarrow> img' ! r ! c = img ! r ! c)
        \<and> nrows img' = nrows img \<and> ncols img' = ncols img \<and> rectangular img'"
      unfolding r0_def c0_def by blast
    with Inr exact show ?thesis by simp
  qed
qed

text \<open>
  On a 2 x 3 array of zeros of 64-bit floats, \<open>slow_thing(image, 1, 2)\<close> writes 102000
  at row 1, column 2.
\<close>

theorem slow_thing_sets_pixel_witness:
  "rectangular [[0, 0, 0], [0, 0, 0 :: real]]
   \<and> valid_index (nrows [[0, 0, 0], [0, 0, 0 :: real]]) 1
   \<and> valid_index (ncols [[0, 0, 0], [0, 0, 0 :: real]]) 2
   \<and> float64 (100000 * 1 + 1000 * 2) = Inr 102000
   \<and> slow_thing float64 [[0, 0, 0], [0, 0, 0]] 1 2 = Inr [[0, 0, 0], [0, 0, 102000]]
   \<and> (\<exists>img'. slow_thing float64 [[0, 0, 0], [0, 0, 0]] 1 2 = Inr img'
         \<and> getitem img' 1 2 = Inr 102000 \<and> img' ! 0 ! 1 = 0)"
proof -
  let ?z = "[[0, 0, 0], [0, 0, 0 :: real]]"
  have h1: "rectangular ?z" by (simp add: rectangular_def ncols_def)
  have h2: "valid_index (nrows ?z) 1" by (simp add: valid_index_def nrows_def)
  have h3: "valid_index (ncols ?z) 2" by (simp add: valid_index_def ncols_def)
  note both = slow_thing_sets_pixel
    [where img = ?z and x = 1 and y = 2 and conv = float64, OF h1 h2 h3]
  from both have exact: "float64 102000 = Inr 102000" by simp
  from both have "\<exists>img'. slow_thing float64 ?z 1 2 = Inr img'
      \<and> getitem img' 1 2 = Inr 102000
      \<and> (\<forall>r c. r < nrows ?z \<longrightarrow> c < ncols ?z
            \<longrightarrow> (r, c) \<noteq> (position (nrows ?z) 1, position (ncols ?z) 2)
            \<longrightarrow> img' ! r ! c = ?z ! r ! c)"
    by (simp add: exact) blast
  then obtain img' where run: "slow_thing float64 ?z 1 2 = Inr img'"
    and read: "getitem img' 1 2 = Inr 102000"
    and other: "\<forall>r c. r < nrows ?z \<longrightarrow> c < ncols ?z
            \<longrightarrow> (r, c) \<noteq> (position (nrows ?z) 1, position (ncols ?z) 2)
            \<longrightarrow> img' ! r ! c = ?z ! r ! c"
    by blast
  from other have "img' ! 0 ! 1 = 0"
    by (simp add: nrows_def ncols_def position_def)
  with run read have ex: "\<exists>img'. slow_thing float64 ?z 1 2 = Inr img'
      \<and> getitem img' 1 2 = Inr 102000 \<and> img' ! 0 ! 1 = 0"
    by auto
  have "slow_thing float64 ?z 1 2 = Inr [[0, 0, 0], [0, 0, 102000]]"
    using exact
    by (simp add: slow_thing_def setitem_def norm_index_def nrows_def ncols_def slow_sum)
  with h1 h2 h3 exact ex show ?thesis by simp
qed

text \<open>
  On an array of unsigned 8-bit integers the same call does not store 102000: where the
  conversion reduces modulo 256 the entry becomes 112, and where it checks the range the
  call raises.
\<close>

theorem slow_thing_uint8:
  "slow_thing uint8_wrapping [[0, 0, 0], [0, 0, 0]] 1 2 = Inr [[0, 0, 0], [0, 0, 112]]
   \<and> slow_thing uint8_checked [[0, 0, 0], [0, 0, 0]] 1 2 = Inl OverflowError"
  by (simp add: slow_thing_def setitem_def norm_index_def nrows_def ncols_def slow_sum
      uint8_wrapping_def uint8_checked_def)

end
